theory Spec2Isabelle
  imports Complex_Main
begin

section \<open>Values of the Python program\<close>

text \<open>
  The agent works on what \<^verbatim>\<open>json.loads\<close> and \<^verbatim>\<open>json.load\<close> return: \<^verbatim>\<open>None\<close>, booleans,
  unbounded integers, floats, strings, lists and dictionaries with string keys. A
  dictionary is an association list in insertion order, read with \<open>map_of\<close>. The code
  never computes with a float: it only tests one for zero and compares it with an integer
  literal, and both are exact, so a finite float is the rational it denotes.
\<close>

datatype pyfloat = Finite rat | PosInf | NegInf | NaN

datatype json =
    JNull
  | JBool bool
  | JInt int
  | JFloat pyfloat
  | JStr string
  | JList "json list"
  | JObj "(string \<times> json) list"

type_synonym pydict = "(string \<times> json) list"

text \<open>
  The exceptions that can leave the code. The two \<^verbatim>\<open>ValueError\<close>s of the agent keep what
  their message is built from: the raw model response, and the requested tool name.
  \<open>ExternalError\<close> stands for a failure of the model service or of reading a data file.
\<close>

datatype error =
    ValueError_InvalidJSON string
  | ValueError_UnknownTool json
  | KeyError string
  | TypeError
  | AttributeError
  | ExternalError string

text \<open>Python's truth value of an object (\<^verbatim>\<open>if x\<close>, \<^verbatim>\<open>not x\<close>).\<close>

fun truthy :: "json \<Rightarrow> bool" where
  "truthy JNull = False"
| "truthy (JBool b) = b"
| "truthy (JInt n) = (n \<noteq> 0)"
| "truthy (JFloat f) = (f \<noteq> Finite 0)"
| "truthy (JStr s) = (s \<noteq> [])"
| "truthy (JList xs) = (xs \<noteq> [])"
| "truthy (JObj kvs) = (kvs \<noteq> [])"

text \<open>Lists and dictionaries cannot be hashed, so they cannot be looked up in a dictionary.\<close>

fun unhashable :: "json \<Rightarrow> bool" where
  "unhashable (JList _) = True"
| "unhashable (JObj _) = True"
| "unhashable _ = False"

text \<open>
  \<^verbatim>\<open>d.get("key")\<close> with a literal key: only a dictionary has the method; the result is
  \<open>None\<close> where Python returns the default.
\<close>

fun py_get :: "json \<Rightarrow> string \<Rightarrow> error + json option" where
  "py_get (JObj kvs) k = Inr (map_of kvs k)"
| "py_get _ k = Inl AttributeError"

text \<open>
  \<^verbatim>\<open>data.get(key)\<close> where the key is itself a decoded value: a list or a dictionary is
  unhashable, and any other non-string key equals no string key.
\<close>

fun data_get :: "json \<Rightarrow> json \<Rightarrow> error + json option" where
  "data_get (JObj kvs) (JStr k) = Inr (map_of kvs k)"
| "data_get (JObj kvs) (JList _) = Inl TypeError"
| "data_get (JObj kvs) (JObj _) = Inl TypeError"
| "data_get (JObj kvs) _ = Inr None"
| "data_get _ _ = Inl AttributeError"

text \<open>\<^verbatim>\<open>x["key"]\<close> with a literal string key.\<close>

fun py_getitem :: "json \<Rightarrow> string \<Rightarrow> error + json" where
  "py_getitem (JObj kvs) k = (case map_of kvs k of None \<Rightarrow> Inl (KeyError k) | Some v \<Rightarrow> Inr v)"
| "py_getitem _ k = Inl TypeError"

text \<open>Iterating over a value: a list gives its elements, a dictionary its keys, a string
  its characters; nothing else is iterable.\<close>

fun py_iter :: "json \<Rightarrow> error + json list" where
  "py_iter (JList xs) = Inr xs"
| "py_iter (JObj kvs) = Inr (map (\<lambda>kv. JStr (fst kv)) kvs)"
| "py_iter (JStr s) = Inr (map (\<lambda>c. JStr [c]) s)"
| "py_iter _ = Inl TypeError"

text \<open>\<^verbatim>\<open>x > k\<close> for an integer literal \<open>k\<close>: numbers and booleans compare, anything else
  raises.\<close>

fun py_gt :: "json \<Rightarrow> int \<Rightarrow> error + bool" where
  "py_gt (JInt n) k = Inr (k < n)"
| "py_gt (JBool b) k = Inr (k < (if b then 1 else 0))"
| "py_gt (JFloat (Finite r)) k = Inr (of_int k < r)"
| "py_gt (JFloat PosInf) k = Inr True"
| "py_gt (JFloat NegInf) k = Inr False"
| "py_gt (JFloat NaN) k = Inr False"
| "py_gt _ k = Inl TypeError"

text \<open>\<^verbatim>\<open>sep.join(strings)\<close> on a list of strings.\<close>

fun join :: "string \<Rightarrow> string list \<Rightarrow> string" where
  "join sep [] = []"
| "join sep [x] = x"
| "join sep (x # y # ys) = x @ sep @ join sep (y # ys)"

text \<open>\<^verbatim>\<open>sep.join(x)\<close> on a decoded value: every element of the iteration must be a string.\<close>

fun strings_of :: "json list \<Rightarrow> error + string list" where
  "strings_of [] = Inr []"
| "strings_of (JStr s # xs) = (case strings_of xs of Inl e \<Rightarrow> Inl e | Inr ss \<Rightarrow> Inr (s # ss))"
| "strings_of (_ # xs) = Inl TypeError"

definition py_join :: "string \<Rightarrow> json \<Rightarrow> error + string" where
  "py_join sep x =
     (case py_iter x of
        Inl e \<Rightarrow> Inl e
      | Inr xs \<Rightarrow> (case strings_of xs of Inl e \<Rightarrow> Inl e | Inr ss \<Rightarrow> Inr (join sep ss)))"

section \<open>The tools (src/tools)\<close>

text \<open>
  Each tool opens its data file and decodes it at every call. The files are not part of
  the sources, so what \<^verbatim>\<open>json.load\<close> gives for each is a parameter: \<open>Inl\<close> when the file
  cannot be read or decoded, \<open>Inr\<close> the decoded value otherwise. The \<open>service\<close> argument is
  whatever the model put into the call.
\<close>

definition check_metrics :: "error + json \<Rightarrow> json \<Rightarrow> error + pydict" where
  "check_metrics file service =
     (case file of
        Inl e \<Rightarrow> Inl e
      | Inr data \<Rightarrow>
          (case data_get data service of
             Inl e \<Rightarrow> Inl e
           | Inr r \<Rightarrow>
               (let metrics = (case r of None \<Rightarrow> JNull | Some v \<Rightarrow> v) in
                if \<not> truthy metrics
                then Inr [(''ok'', JBool False), (''error'', JStr ''Service not found'')]
                else Inr [(''ok'', JBool True), (''service'', service), (''metrics'', metrics)])))"

text \<open>The list comprehension of \<^verbatim>\<open>check_logs\<close>: \<^verbatim>\<open>[l for l in logs if l["level"] == "ERROR"]\<close>.\<close>

fun error_logs_of :: "json list \<Rightarrow> error + json list" where
  "error_logs_of [] = Inr []"
| "error_logs_of (l # ls) =
     (case py_getitem l ''level'' of
        Inl e \<Rightarrow> Inl e
      | Inr level \<Rightarrow>
          (case error_logs_of ls of
             Inl e \<Rightarrow> Inl e
           | Inr rest \<Rightarrow> Inr (if level = JStr ''ERROR'' then l # rest else rest)))"

definition check_logs :: "error + json \<Rightarrow> json \<Rightarrow> error + pydict" where
  "check_logs file service =
     (case file of
        Inl e \<Rightarrow> Inl e
      | Inr data \<Rightarrow>
          (case data_get data service of
             Inl e \<Rightarrow> Inl e
           | Inr r \<Rightarrow>
               (let logs = (case r of None \<Rightarrow> JList [] | Some v \<Rightarrow> v) in
                case py_iter logs of
                  Inl e \<Rightarrow> Inl e
                | Inr ls \<Rightarrow>
                    (case error_logs_of ls of
                       Inl e \<Rightarrow> Inl e
                     | Inr error_logs \<Rightarrow>
                         Inr [(''ok'', JBool True), (''service'', service),
                              (''error_count'', JInt (int (length error_logs))),
                              (''recent_errors'', JList (take 3 error_logs))]))))"

definition check_deployments :: "error + json \<Rightarrow> json \<Rightarrow> error + pydict" where
  "check_deployments file service =
     (case file of
        Inl e \<Rightarrow> Inl e
      | Inr data \<Rightarrow>
          (case data_get data service of
             Inl e \<Rightarrow> Inl e
           | Inr r \<Rightarrow>
               (let deployment = (case r of None \<Rightarrow> JNull | Some v \<Rightarrow> v) in
                if \<not> truthy deployment
                then Inr [(''ok'', JBool False), (''error'', JStr ''No deployment info'')]
                else Inr [(''ok'', JBool True), (''service'', service),
                          (''deployment'', deployment)])))"

text \<open>\<^verbatim>\<open>x.items()\<close>: only a dictionary has the method.\<close>

fun py_items :: "json \<Rightarrow> error + (string \<times> json) list" where
  "py_items (JObj kvs) = Inr kvs"
| "py_items _ = Inl AttributeError"

definition check_dependencies :: "error + json \<Rightarrow> json \<Rightarrow> error + pydict" where
  "check_dependencies file service =
     (case file of
        Inl e \<Rightarrow> Inl e
      | Inr data \<Rightarrow>
          (case data_get data service of
             Inl e \<Rightarrow> Inl e
           | Inr r \<Rightarrow>
               (let deps = (case r of None \<Rightarrow> JNull | Some v \<Rightarrow> v) in
                if \<not> truthy deps
                then Inr [(''ok'', JBool False), (''error'', JStr ''No dependency data'')]
                else
                  (case py_getitem deps ''dependency_health'' of
                     Inl e \<Rightarrow> Inl e
                   | Inr health \<Rightarrow>
                       (case py_items health of
                          Inl e \<Rightarrow> Inl e
                        | Inr items \<Rightarrow>
                            (let degraded =
                                   map (\<lambda>ns. JStr (fst ns))
                                     (filter (\<lambda>ns. snd ns \<noteq> JStr ''healthy'') items) in
                             case py_getitem deps ''depends_on'' of
                               Inl e \<Rightarrow> Inl e
                             | Inr depends_on \<Rightarrow>
                                 Inr [(''ok'', JBool True), (''service'', service),
                                      (''dependencies'', depends_on),
                                      (''degraded_dependencies'', JList degraded)]))))))"

section \<open>The agent state (src/agent/state.py)\<close>

text \<open>
  An observation is the dictionary that \<^verbatim>\<open>run\<close> appends after a tool call; its \<open>tool\<close> is
  a key of the registry, hence a string, and its \<open>result\<close> is the dictionary the tool
  returned. \<open>conclusion\<close> is \<open>JNull\<close> for Python's \<^verbatim>\<open>None\<close>; the code stores there whatever
  value the model supplied.
\<close>

record observation =
  step :: int
  thought :: json
  tool :: string
  args :: json
  result :: pydict

record AgentState =
  goal :: string
  service :: string
  observations :: "observation list"
  steps :: int
  "done" :: bool
  conclusion :: json

text \<open>\<^verbatim>\<open>AgentState(goal=..., service=...)\<close> with the defaults of the dataclass.\<close>

definition new_state :: "string \<Rightarrow> string \<Rightarrow> AgentState" where
  "new_state g sv =
     \<lparr>goal = g, service = sv, observations = [], steps = 0, done = False, conclusion = JNull\<rparr>"

section \<open>The agent (src/agent/react_agent.py)\<close>

text \<open>
  What the agent reaches outside the program: the chat completion behind \<^verbatim>\<open>_reason\<close>, which
  is sent the goal, the service and the observations and answers with a text or fails;
  \<^verbatim>\<open>json.loads\<close>, \<open>None\<close> where it raises \<^verbatim>\<open>JSONDecodeError\<close>; and the four data files.
  The methods keep their names without the leading underscore: \<open>reason\<close>,
  \<open>parse_response\<close>, \<open>enough_evidence\<close>, \<open>summarize\<close>, \<open>print_trace\<close>.
\<close>

record world =
  chat_completion :: "string \<Rightarrow> string \<Rightarrow> observation list \<Rightarrow> error + string"
  json_loads :: "string \<Rightarrow> json option"
  metrics_file :: "error + json"
  logs_file :: "error + json"
  deployments_file :: "error + json"
  dependencies_file :: "error + json"

type_synonym tool_fn = "world \<Rightarrow> json \<Rightarrow> error + pydict"

definition TOOLS :: "(string \<times> tool_fn) list" where
  "TOOLS =
     [(''check_metrics'', \<lambda>w. check_metrics (metrics_file w)),
      (''check_logs'', \<lambda>w. check_logs (logs_file w)),
      (''check_deployments'', \<lambda>w. check_deployments (deployments_file w)),
      (''check_dependencies'', \<lambda>w. check_dependencies (dependencies_file w))]"

text \<open>\<^verbatim>\<open>TOOLS.get(tool_name)\<close>: the entry for a registered name, \<open>None\<close> for any other hashable
  value, \<^verbatim>\<open>TypeError\<close> for an unhashable one.\<close>

fun TOOLS_get :: "json \<Rightarrow> error + (string \<times> tool_fn) option" where
  "TOOLS_get (JStr name) =
     Inr (case map_of TOOLS name of None \<Rightarrow> None | Some f \<Rightarrow> Some (name, f))"
| "TOOLS_get (JList _) = Inl TypeError"
| "TOOLS_get (JObj _) = Inl TypeError"
| "TOOLS_get _ = Inr None"

text \<open>\<^verbatim>\<open>tool_fn(**args)\<close>: the call binds only when \<open>args\<close> is a dictionary whose one key is
  \<open>service\<close>; the bound value is the result.\<close>

fun bind_args :: "json \<Rightarrow> error + json" where
  "bind_args (JObj [(k, v)]) = (if k = ''service'' then Inr v else Inl TypeError)"
| "bind_args _ = Inl TypeError"

text \<open>\<^verbatim>\<open>d.get(k, default)\<close> on a dictionary.\<close>

definition dict_get :: "pydict \<Rightarrow> string \<Rightarrow> json \<Rightarrow> json" where
  "dict_get d k dflt = (case map_of d k of None \<Rightarrow> dflt | Some v \<Rightarrow> v)"

definition reason :: "world \<Rightarrow> AgentState \<Rightarrow> error + string" where
  "reason w state = chat_completion w (goal state) (service state) (observations state)"

definition parse_response :: "world \<Rightarrow> string \<Rightarrow> error + json" where
  "parse_response w response =
     (case json_loads w response of
        None \<Rightarrow> Inl (ValueError_InvalidJSON response)
      | Some v \<Rightarrow> Inr v)"

definition enough_evidence :: "observation list \<Rightarrow> bool" where
  "enough_evidence obs =
     (let tools_used = set (map tool obs) in
      ''check_metrics'' \<in> tools_used \<and> ''check_logs'' \<in> tools_used \<and> 3 \<le> card tools_used)"

text \<open>One pass of the loop of \<^verbatim>\<open>_summarize\<close>: the clauses one observation appends.\<close>

definition summarize_obs :: "observation \<Rightarrow> string list \<Rightarrow> error + string list" where
  "summarize_obs obs summary =
     (if tool obs = ''check_metrics'' then
        (case py_getitem (JObj (result obs)) ''metrics'' of
           Inl e \<Rightarrow> Inl e
         | Inr metrics \<Rightarrow>
             (case py_getitem metrics ''cpu_percent'' of
                Inl e \<Rightarrow> Inl e
              | Inr cpu \<Rightarrow>
                  (case py_gt cpu 80 of
                     Inl e \<Rightarrow> Inl e
                   | Inr high_cpu \<Rightarrow>
                       (let summary1 =
                              (if high_cpu then summary @ [''High CPU usage detected.'']
                               else summary) in
                        case py_getitem metrics ''latency_ms'' of
                          Inl e \<Rightarrow> Inl e
                        | Inr latency \<Rightarrow>
                            (case py_gt latency 500 of
                               Inl e \<Rightarrow> Inl e
                             | Inr high_latency \<Rightarrow>
                                 Inr (if high_latency
                                      then summary1 @ [''High service latency observed.'']
                                      else summary1))))))
      else if tool obs = ''check_logs'' then
        (case py_getitem (JObj (result obs)) ''error_count'' of
           Inl e \<Rightarrow> Inl e
         | Inr error_count \<Rightarrow>
             (case py_gt error_count 0 of
                Inl e \<Rightarrow> Inl e
              | Inr errors \<Rightarrow>
                  Inr (if errors then summary @ [''Application errors found in logs.'']
                       else summary)))
      else if tool obs = ''check_deployments'' then
        Inr (summary @ [''Recent deployment detected.''])
      else if tool obs = ''check_dependencies'' then
        (case py_getitem (JObj (result obs)) ''degraded_dependencies'' of
           Inl e \<Rightarrow> Inl e
         | Inr degraded \<Rightarrow>
             (if truthy degraded then
                (case py_join '', '' degraded of
                   Inl e \<Rightarrow> Inl e
                 | Inr names \<Rightarrow> Inr (summary @ [''Degraded dependency: '' @ names]))
              else Inr summary))
      else Inr summary)"

fun summarize_loop :: "observation list \<Rightarrow> string list \<Rightarrow> error + string list" where
  "summarize_loop [] summary = Inr summary"
| "summarize_loop (obs # rest) summary =
     (case summarize_obs obs summary of
        Inl e \<Rightarrow> Inl e
      | Inr summary' \<Rightarrow> summarize_loop rest summary')"

definition summarize :: "AgentState \<Rightarrow> error + string" where
  "summarize state =
     (case summarize_loop (observations state) [] of
        Inl e \<Rightarrow> Inl e
      | Inr summary \<Rightarrow> Inr (''Likely root cause: '' @ join '' '' summary))"

text \<open>
  \<^verbatim>\<open>_print_trace\<close> writes to the terminal, which is not modelled; what matters to the run is
  where its subscripts raise.
\<close>

definition print_trace :: "observation \<Rightarrow> error + unit" where
  "print_trace step_data =
     (case py_get (args step_data) ''service'' of
        Inl e \<Rightarrow> Inl e
      | Inr _ \<Rightarrow>
          (let res = result step_data in
           if map_of res ''metrics'' \<noteq> None then
             (case py_getitem (JObj res) ''metrics'' of
                Inl e \<Rightarrow> Inl e
              | Inr m \<Rightarrow>
                  (case py_getitem m ''cpu_percent'' of
                     Inl e \<Rightarrow> Inl e
                   | Inr _ \<Rightarrow>
                       (case py_getitem m ''latency_ms'' of
                          Inl e \<Rightarrow> Inl e
                        | Inr _ \<Rightarrow> Inr ())))
           else if map_of res ''error_count'' \<noteq> None then Inr ()
           else if map_of res ''degraded_dependencies'' \<noteq> None then
             (case py_getitem (JObj res) ''degraded_dependencies'' of
                Inl e \<Rightarrow> Inl e
              | Inr degraded \<Rightarrow>
                  (if truthy degraded then
                     (case py_join '', '' degraded of Inl e \<Rightarrow> Inl e | Inr _ \<Rightarrow> Inr ())
                   else Inr ()))
           else if map_of res ''deployment'' \<noteq> None then
             (case py_getitem (JObj res) ''deployment'' of
                Inl e \<Rightarrow> Inl e
              | Inr deployment \<Rightarrow>
                  (case py_getitem deployment ''version'' of
                     Inl e \<Rightarrow> Inl e
                   | Inr _ \<Rightarrow> Inr ()))
           else Inr ()))"

section \<open>The loop of \<^verbatim>\<open>run\<close>\<close>

text \<open>
  Two things the program does not return are recorded beside its result, in the order in
  which they happen: each entry into a tool function, with the tool's name and the bound
  \<open>service\<close> argument, and the state right after each \<^verbatim>\<open>state.steps += 1\<close>. An exception
  leaves the state object as it was mutated so far, so a raise carries that state.
\<close>

datatype event = Invoked string json | Completed AgentState

datatype body_result =
    Raises error AgentState
  | Breaks AgentState
  | Continues AgentState

definition body :: "world \<Rightarrow> AgentState \<Rightarrow> event list \<times> body_result" where
  "body w state =
     (case reason w state of
        Inl e \<Rightarrow> ([], Raises e state)
      | Inr response \<Rightarrow>
     (case parse_response w response of
        Inl e \<Rightarrow> ([], Raises e state)
      | Inr decision \<Rightarrow>
     (case decision of
        JObj d \<Rightarrow>
          if truthy (dict_get d ''done'' JNull) then
            ([], Breaks (state\<lparr>done := True,
                   conclusion :=
                     dict_get d ''conclusion'' (JStr ''Incident analysis completed by agent.'')\<rparr>))
          else
            (let action = dict_get d ''action'' JNull in
             if \<not> truthy action then ([], Breaks state)
             else
               (case action of
                  JObj a \<Rightarrow>
                    (let tool_name = dict_get a ''tool'' JNull;
                         args = dict_get a ''args'' (JObj []) in
                     case TOOLS_get tool_name of
                       Inl e \<Rightarrow> ([], Raises e state)
                     | Inr None \<Rightarrow> ([], Raises (ValueError_UnknownTool tool_name) state)
                     | Inr (Some (name, tool_fn)) \<Rightarrow>
                         (case bind_args args of
                            Inl e \<Rightarrow> ([], Raises e state)
                          | Inr sv \<Rightarrow>
                              (case tool_fn w sv of
                                 Inl e \<Rightarrow> ([Invoked name sv], Raises e state)
                               | Inr res \<Rightarrow>
                                   (let obs = \<lparr>step = steps state + 1,
                                               thought = dict_get d ''thought'' JNull,
                                               tool = name, args = args, result = res\<rparr>;
                                        state1 = state\<lparr>observations := observations state @ [obs],
                                                       steps := steps state + 1\<rparr>;
                                        evs = [Invoked name sv, Completed state1] in
                                    case print_trace obs of
                                      Inl e \<Rightarrow> (evs, Raises e state1)
                                    | Inr _ \<Rightarrow>
                                        if enough_evidence (observations state1) then
                                          (let state2 = state1\<lparr>done := True\<rparr> in
                                           case summarize state2 of
                                             Inl e \<Rightarrow> (evs, Raises e state2)
                                           | Inr c \<Rightarrow>
                                               (evs, Breaks (state2\<lparr>conclusion := JStr c\<rparr>)))
                                        else (evs, Continues state1)))))
                | _ \<Rightarrow> ([], Raises AttributeError state)))
      | _ \<Rightarrow> ([], Raises AttributeError state))))"

datatype outcome = Raised error AgentState | Returned AgentState

text \<open>\<^verbatim>\<open>while not state.done and state.steps < max_steps\<close>; the result is the state with which
  the loop is left, or the exception.\<close>

function loop :: "world \<Rightarrow> int \<Rightarrow> AgentState \<Rightarrow> event list \<times> outcome" where
  "loop w max_steps state =
     (if \<not> done state \<and> steps state < max_steps then
        (case body w state of
           (evs, Raises e state') \<Rightarrow> (evs, Raised e state')
         | (evs, Breaks state') \<Rightarrow> (evs, Returned state')
         | (evs, Continues state') \<Rightarrow>
             (case loop w max_steps state' of (evs', r) \<Rightarrow> (evs @ evs', r)))
      else ([], Returned state))"
  by pat_completeness auto
termination
  by (relation "measure (\<lambda>(w, max_steps, state). nat (max_steps - steps state))")
     (auto simp: body_def Let_def
        split: sum.splits json.splits if_splits option.splits prod.splits)

declare loop.simps [simp del]

definition run :: "world \<Rightarrow> AgentState \<Rightarrow> int \<Rightarrow> event list \<times> outcome" where
  "run w state max_steps =
     (case loop w max_steps state of
        (evs, Raised e state') \<Rightarrow> (evs, Raised e state')
      | (evs, Returned state') \<Rightarrow>
          if \<not> truthy (conclusion state') then
            (case summarize state' of
               Inl e \<Rightarrow> (evs, Raised e state')
             | Inr c \<Rightarrow> (evs, Returned (state'\<lparr>conclusion := JStr c\<rparr>)))
          else (evs, Returned state'))"

section \<open>Reading a run\<close>

text \<open>The tool calls of a run, the states after its completed steps, and the state an
  outcome carries.\<close>

fun invocations :: "event list \<Rightarrow> (string \<times> json) list" where
  "invocations [] = []"
| "invocations (Invoked n sv # evs) = (n, sv) # invocations evs"
| "invocations (Completed s # evs) = invocations evs"

fun snapshots :: "event list \<Rightarrow> AgentState list" where
  "snapshots [] = []"
| "snapshots (Invoked n sv # evs) = snapshots evs"
| "snapshots (Completed s # evs) = s # snapshots evs"

fun state_of :: "outcome \<Rightarrow> AgentState" where
  "state_of (Raised e s) = s"
| "state_of (Returned s) = s"

text \<open>
  The decision the loop works with in a state (the first two statements of its body), and
  the test for a decision on which the loop goes on to call a tool: \<^verbatim>\<open>decision.get("done")\<close>
  is not true and \<^verbatim>\<open>decision.get("action")\<close> is.
\<close>

definition decision_of :: "world \<Rightarrow> AgentState \<Rightarrow> error + json" where
  "decision_of w state =
     (case reason w state of Inl e \<Rightarrow> Inl e | Inr response \<Rightarrow> parse_response w response)"



section \<open>Example inputs\<close>

text \<open>An observation of a call for \<open>checkout-service\<close>, as \<^verbatim>\<open>run\<close> builds it.\<close>

definition mk_obs :: "int \<Rightarrow> string \<Rightarrow> pydict \<Rightarrow> observation" where
  "mk_obs n t r =
     \<lparr>step = n, thought = JNull, tool = t,
      args = JObj [(''service'', JStr ''checkout-service'')], result = r\<rparr>"

text \<open>
  Model responses as texts, with what \<^verbatim>\<open>json.loads\<close> makes of each. \<open>ex_texts\<close> lists the
  texts the examples use; the example decoder rejects every other text.
\<close>

definition quoted :: "string \<Rightarrow> string" where
  "quoted s = CHR 0x22 # s @ [CHR 0x22]"

definition call_text :: "string \<Rightarrow> string \<Rightarrow> string" where
  "call_text t sv =
     ''{'' @ quoted ''action'' @ '': {'' @ quoted ''tool'' @ '': '' @ quoted t @ '', '' @
     quoted ''args'' @ '': {'' @ quoted ''service'' @ '': '' @ quoted sv @ ''}}, '' @
     quoted ''done'' @ '': false}''"

definition call_json :: "string \<Rightarrow> string \<Rightarrow> json" where
  "call_json t sv =
     JObj [(''action'', JObj [(''tool'', JStr t), (''args'', JObj [(''service'', JStr sv)])]),
           (''done'', JBool False)]"

definition finish_text :: "string \<Rightarrow> string" where
  "finish_text c =
     ''{'' @ quoted ''conclusion'' @ '': '' @ quoted c @ '', '' @ quoted ''done'' @ '': true}''"

definition finish_json :: "string \<Rightarrow> json" where
  "finish_json c = JObj [(''conclusion'', JStr c), (''done'', JBool True)]"

definition finish_list_text :: string where
  "finish_list_text =
     ''{'' @ quoted ''conclusion'' @ '': ['' @ quoted ''payments-api is degraded'' @ ''], '' @
     quoted ''done'' @ '': true}''"

definition ex_texts :: "(string \<times> json) list" where
  "ex_texts =
     [(''{}'', JObj []),
      (call_text ''check_metrics'' ''checkout-service'',
         call_json ''check_metrics'' ''checkout-service''),
      (call_text ''check_logs'' ''checkout-service'',
         call_json ''check_logs'' ''checkout-service''),
      (call_text ''check_deployments'' ''checkout-service'',
         call_json ''check_deployments'' ''checkout-service''),
      (call_text ''check_dependencies'' ''checkout-service'',
         call_json ''check_dependencies'' ''checkout-service''),
      (call_text ''check_metrics'' ''ghost-service'',
         call_json ''check_metrics'' ''ghost-service''),
      (call_text ''restart_service'' ''checkout-service'',
         call_json ''restart_service'' ''checkout-service''),
      (finish_text ''payments-api is degraded'', finish_json ''payments-api is degraded''),
      (finish_text [], finish_json []),
      (finish_list_text,
         JObj [(''conclusion'', JList [JStr ''payments-api is degraded'']),
               (''done'', JBool True)])]"

text \<open>A model that answers the \<open>n\<close>-th text of a script when it is shown \<open>n\<close> observations.\<close>

definition scripted ::
  "string list \<Rightarrow> string \<Rightarrow> string \<Rightarrow> observation list \<Rightarrow> error + string" where
  "scripted texts g sv obs =
     (if length obs < length texts then Inr (texts ! length obs)
      else Inl (ExternalError ''no reply''))"

definition metrics_ex :: json where
  "metrics_ex =
     JObj [(''checkout-service'', JObj [(''cpu_percent'', JInt 92), (''latency_ms'', JInt 850)])]"

definition logs_ex :: json where
  "logs_ex =
     JObj [(''checkout-service'',
       JList [JObj [(''level'', JStr ''ERROR''), (''message'', JStr ''timeout calling payments-api'')],
              JObj [(''level'', JStr ''INFO''), (''message'', JStr ''request served'')]])]"

definition deployments_ex :: json where
  "deployments_ex = JObj [(''checkout-service'', JObj [(''version'', JStr ''v2.3.1'')])]"

definition dependencies_ex :: json where
  "dependencies_ex =
     JObj [(''checkout-service'',
       JObj [(''depends_on'', JList [JStr ''payments-api'', JStr ''inventory-db'']),
             (''dependency_health'',
                JObj [(''payments-api'', JStr ''degraded''),
                      (''inventory-db'', JStr ''healthy'')])])]"

definition ex_world :: "string list \<Rightarrow> world" where
  "ex_world texts =
     \<lparr>chat_completion = scripted texts, json_loads = map_of ex_texts,
      metrics_file = Inr metrics_ex, logs_file = Inr logs_ex,
      deployments_file = Inr deployments_ex, dependencies_file = Inr dependencies_ex\<rparr>"

definition ex_state :: AgentState where
  "ex_state = new_state ''Service latency is high'' ''checkout-service''"

text \<open>Two steps: the metrics, then the logs.\<close>

definition metrics_logs_world :: world where
  "metrics_logs_world =
     ex_world [call_text ''check_metrics'' ''checkout-service'',
               call_text ''check_logs'' ''checkout-service'']"

text \<open>Three steps: the metrics, the logs, then the deployments.\<close>

definition evidence_world :: world where
  "evidence_world =
     ex_world [call_text ''check_metrics'' ''checkout-service'',
               call_text ''check_logs'' ''checkout-service'',
               call_text ''check_deployments'' ''checkout-service'']"

text \<open>Models whose first answer is a finish decision: with a conclusion text, with an
  empty one, with a list of texts.\<close>

definition finish_world :: world where
  "finish_world = ex_world [finish_text ''payments-api is degraded'']"

definition finish_empty_world :: world where
  "finish_empty_world = ex_world [finish_text []]"

definition finish_list_world :: world where
  "finish_list_world = ex_world [finish_list_text]"


definition unknown_tool_world :: world where
  "unknown_tool_world = ex_world [call_text ''restart_service'' ''checkout-service'']"


text \<open>The observation of \<open>check_dependencies\<close> for the example data, and the one of
  \<open>check_metrics\<close> for a service without data.\<close>

definition degraded_history :: "observation list" where
  "degraded_history =
     [mk_obs 1 ''check_dependencies''
        [(''ok'', JBool True), (''service'', JStr ''checkout-service''),
         (''dependencies'', JList [JStr ''payments-api'', JStr ''inventory-db'']),
         (''degraded_dependencies'', JList [JStr ''payments-api''])]]"




section \<open>The evidence policy\<close>

lemma card_ge_3_iff_third:
  assumes "finite S" and "a \<in> S" and "b \<in> S" and "a \<noteq> b"
  shows "(3 \<le> card S) = (\<exists>t\<in>S. t \<noteq> a \<and> t \<noteq> b)"
proof
  assume three: "3 \<le> card S"
  show "\<exists>t\<in>S. t \<noteq> a \<and> t \<noteq> b"
  proof (rule ccontr)
    assume "\<not> (\<exists>t\<in>S. t \<noteq> a \<and> t \<noteq> b)"
    then have "S \<subseteq> {a, b}" by auto
    then have "card S \<le> card {a, b}" by (intro card_mono) auto
    moreover have "card {a, b} = 2" using assms(4) by simp
    ultimately show False using three by simp
  qed
next
  assume "\<exists>t\<in>S. t \<noteq> a \<and> t \<noteq> b"
  then obtain t where t: "t \<in> S" "t \<noteq> a" "t \<noteq> b" by blast
  have "{a, b, t} \<subseteq> S" using assms(2,3) t by simp
  then have "card {a, b, t} \<le> card S" using assms(1) by (intro card_mono) auto
  moreover have "card {a, b, t} = 3" using assms(4) t by simp
  ultimately show "3 \<le> card S" by simp
qed

text \<open>
  C1. For every observation history, \<open>enough_evidence\<close> is true exactly when the set of
  distinct tool names of the history contains both \<open>check_metrics\<close> and \<open>check_logs\<close> and
  has at least three elements; equivalently, when both are there together with a third,
  different tool. It is false as soon as one of the two is missing or fewer than three
  distinct tools were used, however long the history is.
\<close>

theorem enough_evidence_iff:
  "enough_evidence obs =
     ({''check_metrics'', ''check_logs''} \<subseteq> tool ` set obs \<and> 3 \<le> card (tool ` set obs))
   \<and> enough_evidence obs =
     (''check_metrics'' \<in> tool ` set obs \<and> ''check_logs'' \<in> tool ` set obs \<and>
      (\<exists>t \<in> tool ` set obs. t \<noteq> ''check_metrics'' \<and> t \<noteq> ''check_logs''))
   \<and> (\<not> enough_evidence obs) =
     (''check_metrics'' \<notin> tool ` set obs \<or> ''check_logs'' \<notin> tool ` set obs \<or>
      card (tool ` set obs) < 3)"
proof -
  let ?S = "tool ` set obs"
  have first: "enough_evidence obs =
      ({''check_metrics'', ''check_logs''} \<subseteq> ?S \<and> 3 \<le> card ?S)"
    by (simp add: enough_evidence_def Let_def)
  have third: "(3 \<le> card ?S) = (\<exists>t \<in> ?S. t \<noteq> ''check_metrics'' \<and> t \<noteq> ''check_logs'')"
    if "''check_metrics'' \<in> ?S" and "''check_logs'' \<in> ?S"
    using card_ge_3_iff_third [of ?S "''check_metrics''" "''check_logs''"] that by simp
  have second: "enough_evidence obs =
      (''check_metrics'' \<in> ?S \<and> ''check_logs'' \<in> ?S \<and>
       (\<exists>t \<in> ?S. t \<noteq> ''check_metrics'' \<and> t \<noteq> ''check_logs''))"
    using first third by auto
  have last: "(\<not> enough_evidence obs) =
      (''check_metrics'' \<notin> ?S \<or> ''check_logs'' \<notin> ?S \<or> card ?S < 3)"
    using first by auto
  show ?thesis using first second last by blast
qed

text \<open>Three distinct tools with both required ones are enough; four observations of the two
  required tools are not; three distinct tools without the logs are not.\<close>

theorem enough_evidence_iff_witness:
  "enough_evidence [mk_obs 1 ''check_metrics'' [], mk_obs 2 ''check_logs'' [],
                    mk_obs 3 ''check_deployments'' []]
   \<and> \<not> enough_evidence [mk_obs 1 ''check_metrics'' [], mk_obs 2 ''check_logs'' [],
                        mk_obs 3 ''check_metrics'' [], mk_obs 4 ''check_logs'' []]
   \<and> \<not> enough_evidence [mk_obs 1 ''check_metrics'' [], mk_obs 2 ''check_deployments'' [],
                        mk_obs 3 ''check_dependencies'' []]"
proof -
  have a: "enough_evidence [mk_obs 1 ''check_metrics'' [], mk_obs 2 ''check_logs'' [],
                            mk_obs 3 ''check_deployments'' []]"
    using enough_evidence_iff [of "[mk_obs 1 ''check_metrics'' [], mk_obs 2 ''check_logs'' [],
                                    mk_obs 3 ''check_deployments'' []]"]
    by (simp add: mk_obs_def card_insert_if)
  have b: "\<not> enough_evidence [mk_obs 1 ''check_metrics'' [], mk_obs 2 ''check_logs'' [],
                              mk_obs 3 ''check_metrics'' [], mk_obs 4 ''check_logs'' []]"
    using enough_evidence_iff [of "[mk_obs 1 ''check_metrics'' [], mk_obs 2 ''check_logs'' [],
                                    mk_obs 3 ''check_metrics'' [], mk_obs 4 ''check_logs'' []]"]
    by (simp add: mk_obs_def card_insert_if)
  have c: "\<not> enough_evidence [mk_obs 1 ''check_metrics'' [], mk_obs 2 ''check_deployments'' [],
                              mk_obs 3 ''check_dependencies'' []]"
    using enough_evidence_iff [of "[mk_obs 1 ''check_metrics'' [], mk_obs 2 ''check_deployments'' [],
                                    mk_obs 3 ''check_dependencies'' []]"]
    by (simp add: mk_obs_def card_insert_if)
  show ?thesis using a b c by blast
qed

section \<open>The loop body, case by case\<close>

lemma invocations_append: "invocations (xs @ ys) = invocations xs @ invocations ys"
  by (induction xs rule: invocations.induct) auto

lemma snapshots_append: "snapshots (xs @ ys) = snapshots xs @ snapshots ys"
  by (induction xs rule: snapshots.induct) auto

lemma loop_stop: "done s \<or> m \<le> steps s \<Longrightarrow> loop w m s = ([], Returned s)"
  by (subst loop.simps) auto

lemma loop_step:
  "\<not> done s \<Longrightarrow> steps s < m \<Longrightarrow>
   loop w m s =
     (case body w s of
        (evs, Raises e s') \<Rightarrow> (evs, Raised e s')
      | (evs, Breaks s') \<Rightarrow> (evs, Returned s')
      | (evs, Continues s') \<Rightarrow> (case loop w m s' of (evs', r) \<Rightarrow> (evs @ evs', r)))"
  by (subst loop.simps) simp

lemma run_keeps_loop:
  "run w s m = (evs, out) \<Longrightarrow>
   \<exists>out'. loop w m s = (evs, out') \<and> observations (state_of out) = observations (state_of out')
           \<and> steps (state_of out) = steps (state_of out')"
  unfolding run_def
  by (auto split: prod.splits outcome.splits if_splits sum.splits)

lemma summarize_update [simp]:
  "summarize (s\<lparr>done := b\<rparr>) = summarize s"
  "summarize (s\<lparr>conclusion := c\<rparr>) = summarize s"
  by (simp_all add: summarize_def)


lemma summarize_prefix:
  "summarize s = Inr c \<Longrightarrow> \<exists>c'. c = ''Likely root cause: '' @ c'"
  by (auto simp: summarize_def split: sum.splits)

text \<open>What the body did when the loop goes on, and when it breaks or raises.\<close>

lemma body_Continues:
  assumes "body w s = (evs, Continues t)"
  shows "\<exists>n sv obs. evs = [Invoked n sv, Completed t] \<and> \<not> enough_evidence (observations t) \<and>
           t = s\<lparr>observations := observations s @ [obs], steps := steps s + 1\<rparr>"
  using assms unfolding body_def
  by (auto simp: Let_def split: sum.splits json.splits if_splits option.splits prod.splits)

lemma body_stops:
  assumes "body w s = (evs, r)" and "(\<exists>e. r = Raises e t) \<or> r = Breaks t"
  shows "(length (invocations evs) \<le> 1 \<and> snapshots evs = [] \<and>
          observations t = observations s \<and> steps t = steps s)
       \<or> (\<exists>s1 obs. length (invocations evs) = 1 \<and> snapshots evs = [s1] \<and>
             observations s1 = observations s @ [obs] \<and> steps s1 = steps s + 1 \<and>
             observations t = observations s @ [obs] \<and> steps t = steps s + 1)"
  using assms unfolding body_def
  by (auto simp: Let_def split: sum.splits json.splits if_splits option.splits prod.splits)

lemma body_Breaks:
  assumes "body w s = (evs, Breaks t)"
  shows "(\<exists>d. decision_of w s = Inr (JObj d) \<and> truthy (dict_get d ''done'' JNull) \<and> evs = [] \<and>
              t = s\<lparr>done := True,
                    conclusion := dict_get d ''conclusion''
                                    (JStr ''Incident analysis completed by agent.'')\<rparr>)
       \<or> (\<exists>d. decision_of w s = Inr (JObj d) \<and> \<not> truthy (dict_get d ''done'' JNull) \<and>
              \<not> truthy (dict_get d ''action'' JNull) \<and> evs = [] \<and> t = s)
       \<or> (\<exists>n sv obs c s1. s1 = s\<lparr>observations := observations s @ [obs], steps := steps s + 1\<rparr> \<and>
              evs = [Invoked n sv, Completed s1] \<and> enough_evidence (observations s1) \<and>
              summarize s1 = Inr c \<and> t = s1\<lparr>done := True, conclusion := JStr c\<rparr>)"
  using assms unfolding body_def decision_of_def
  by (auto simp: Let_def split: sum.splits json.splits if_splits option.splits prod.splits)



lemma body_finish:
  assumes "decision_of w s = Inr (JObj d)" and "truthy (dict_get d ''done'' JNull)"
  shows "body w s =
    ([], Breaks (s\<lparr>done := True,
           conclusion := dict_get d ''conclusion'' (JStr ''Incident analysis completed by agent.'')\<rparr>))"
  using assms unfolding body_def decision_of_def
  by (auto simp: Let_def split: sum.splits)


lemma TOOLS_get_unknown:
  assumes "\<forall>name \<in> set (map fst TOOLS). v \<noteq> JStr name"
  shows "TOOLS_get v = (if unhashable v then Inl TypeError else Inr None)"
proof (cases v)
  case (JStr n)
  then have "n \<notin> set (map fst TOOLS)" using assms by auto
  then have "map_of TOOLS n = None" by (simp add: map_of_eq_None_iff)
  then show ?thesis using JStr by simp
qed simp_all

lemma body_unknown_tool:
  assumes "decision_of w s = Inr (JObj d)" and "\<not> truthy (dict_get d ''done'' JNull)"
    and "dict_get d ''action'' JNull = JObj a" and "a \<noteq> []"
    and "\<forall>name \<in> set (map fst TOOLS). dict_get a ''tool'' JNull \<noteq> JStr name"
  shows "body w s =
    ([], Raises (if unhashable (dict_get a ''tool'' JNull) then TypeError
                 else ValueError_UnknownTool (dict_get a ''tool'' JNull)) s)"
  using assms(1-4) TOOLS_get_unknown [OF assms(5)] unfolding body_def decision_of_def
  by (auto simp: Let_def split: sum.splits)

section \<open>The step budget\<close>

lemma loop_budget:
  "loop w m s = (evs, out) \<Longrightarrow> steps s = int (length (observations s)) \<Longrightarrow> steps s \<le> m \<Longrightarrow>
     int (length (invocations evs)) + steps s \<le> m \<and>
     (\<forall>t \<in> set (snapshots evs) \<union> {state_of out}.
        steps t = int (length (observations t)) \<and> steps t \<le> m)"
proof (induction w m s arbitrary: evs out rule: loop.induct)
  case (1 w m s)
  show ?case
  proof (cases "\<not> done s \<and> steps s < m")
    case False
    then have "loop w m s = ([], Returned s)" by (intro loop_stop) auto
    then have "evs = []" "out = Returned s" using "1.prems"(1) by simp_all
    then show ?thesis using "1.prems" by simp
  next
    case True
    obtain bevs r where b: "body w s = (bevs, r)" by (cases "body w s")
    have step: "loop w m s =
        (case r of Raises e s' \<Rightarrow> (bevs, Raised e s') | Breaks s' \<Rightarrow> (bevs, Returned s')
         | Continues s' \<Rightarrow> (case loop w m s' of (evs', r) \<Rightarrow> (bevs @ evs', r)))"
      using True b by (simp add: loop_step)
    show ?thesis
    proof (cases r)
      case (Raises e t)
      then have "evs = bevs" "out = Raised e t"
        using "1.prems"(1) step by simp_all
      then show ?thesis
        using body_stops [OF b, of t] Raises "1.prems"(2,3) True by auto
    next
      case (Breaks t)
      then have "evs = bevs" "out = Returned t"
        using "1.prems"(1) step by simp_all
      then show ?thesis
        using body_stops [OF b, of t] Breaks "1.prems"(2,3) True by auto
    next
      case (Continues t)
      obtain evs' where rec: "loop w m t = (evs', out)" and evs: "evs = bevs @ evs'"
        using "1.prems"(1) step Continues by (auto split: prod.splits)
      from body_Continues [OF b [unfolded Continues]] obtain n sv obs where
        bevs: "bevs = [Invoked n sv, Completed t]" and
        t: "t = s\<lparr>observations := observations s @ [obs], steps := steps s + 1\<rparr>"
        by blast
      have inv: "steps t = int (length (observations t))" using t "1.prems"(2) by simp
      have le: "steps t \<le> m" using t True by simp
      have st: "steps t = steps s + 1" using t by simp
      note ih = "1.IH" [OF True b [symmetric] Continues rec inv le]
      show ?thesis using ih evs inv le st
        by (auto simp: invocations_append snapshots_append bevs)
    qed
  qed
qed

text \<open>A state made by \<^verbatim>\<open>AgentState(goal=..., service=...)\<close> has no observations and no steps.\<close>

lemma new_state_consistent:
  "0 \<le> max_steps \<Longrightarrow>
   steps (new_state g sv) = int (length (observations (new_state g sv))) \<and>
   steps (new_state g sv) \<le> max_steps"
  by (simp add: new_state_def)

text \<open>
  C2. A run that starts from a state whose step count is the number of its observations
  and does not exceed the budget (a state made by \<open>new_state\<close> is one, for every budget
  \<open>0 \<le> max_steps\<close>) enters tool functions at most \<open>max_steps\<close> times, whatever the model
  answers and whether the run returns or raises. In every state after a completed step,
  and in the state the run ends with, the number of observations is the step count and
  is at most \<open>max_steps\<close>.
\<close>

theorem run_step_budget:
  assumes "run w s max_steps = (evs, out)"
    and "steps s = int (length (observations s))"
    and "steps s \<le> max_steps"
  shows "int (length (invocations evs)) \<le> max_steps
       \<and> int (length (invocations evs)) \<le> max_steps - steps s
       \<and> (\<forall>t \<in> set (snapshots evs) \<union> {state_of out}.
            int (length (observations t)) \<le> max_steps \<and>
            int (length (observations t)) = steps t)"
proof -
  from run_keeps_loop [OF assms(1)] obtain out' where
    l: "loop w max_steps s = (evs, out')" and
    o: "observations (state_of out) = observations (state_of out')"
       "steps (state_of out) = steps (state_of out')"
    by blast
  note b = loop_budget [OF l assms(2,3)]
  have "0 \<le> steps s" using assms(2) by simp
  then show ?thesis using b o by auto
qed

text \<open>A new state and a budget of two: the model asks for the metrics and for the logs.\<close>

theorem run_step_budget_witness:
  "steps ex_state = int (length (observations ex_state)) \<and> steps ex_state \<le> 2
   \<and> int (length (invocations (fst (run metrics_logs_world ex_state 2)))) \<le> 2
   \<and> invocations (fst (run metrics_logs_world ex_state 2)) =
        [(''check_metrics'', JStr ''checkout-service''),
         (''check_logs'', JStr ''checkout-service'')]
   \<and> map (\<lambda>t. (int (length (observations t)), steps t))
         (snapshots (fst (run metrics_logs_world ex_state 2))
          @ [state_of (snd (run metrics_logs_world ex_state 2))]) =
        [(1, 1), (2, 2), (2, 2)]"
proof -
  have h1: "steps ex_state = int (length (observations ex_state))" by code_simp
  have h2: "steps ex_state \<le> 2" by code_simp
  have h3: "invocations (fst (run metrics_logs_world ex_state 2)) =
        [(''check_metrics'', JStr ''checkout-service''),
         (''check_logs'', JStr ''checkout-service'')]"
    by code_simp
  have h4: "map (\<lambda>t. (int (length (observations t)), steps t))
         (snapshots (fst (run metrics_logs_world ex_state 2))
          @ [state_of (snd (run metrics_logs_world ex_state 2))]) =
        [(1, 1), (2, 2), (2, 2)]"
    by code_simp
  have r: "run metrics_logs_world ex_state 2 =
      (fst (run metrics_logs_world ex_state 2), snd (run metrics_logs_world ex_state 2))"
    by simp
  have b: "int (length (invocations (fst (run metrics_logs_world ex_state 2)))) \<le> 2"
    using run_step_budget [OF r h1 h2] by blast
  show ?thesis using b h1 h2 h3 h4 by blast
qed

section \<open>Finish decisions\<close>

text \<open>
  C3, as the code has it. When the model returns a finish decision (its \<open>done\<close> is true) in
  a state in which the loop runs, the loop stops in that step without calling a tool, with
  \<open>done\<close> set and the conclusion set to the value the decision supplies, or to the
  placeholder when the decision has no \<open>conclusion\<close> key. The run returns that state when
  this conclusion is not empty. A supplied conclusion that is empty is not replaced by the
  placeholder: the final fallback replaces it by the summary of the observations, and the
  run raises when the summary does.
\<close>

theorem finish_decision_stops:
  assumes "\<not> done s" and "steps s < max_steps"
    and "decision_of w s = Inr (JObj d)" and "truthy (dict_get d ''done'' JNull)"
  shows "loop w max_steps s =
           ([], Returned (s\<lparr>done := True,
                  conclusion := dict_get d ''conclusion''
                                  (JStr ''Incident analysis completed by agent.'')\<rparr>))
       \<and> (map_of d ''conclusion'' = None \<longrightarrow>
            run w s max_steps =
              ([], Returned (s\<lparr>done := True,
                     conclusion := JStr ''Incident analysis completed by agent.''\<rparr>)))
       \<and> (\<forall>c. map_of d ''conclusion'' = Some c \<and> truthy c \<longrightarrow>
            run w s max_steps = ([], Returned (s\<lparr>done := True, conclusion := c\<rparr>)))
       \<and> (\<forall>c. map_of d ''conclusion'' = Some c \<and> \<not> truthy c \<longrightarrow>
            run w s max_steps =
              ([], case summarize s of
                     Inl e \<Rightarrow> Raised e (s\<lparr>done := True, conclusion := c\<rparr>)
                   | Inr t \<Rightarrow> Returned (s\<lparr>done := True, conclusion := JStr t\<rparr>)))"
proof -
  let ?c = "dict_get d ''conclusion'' (JStr ''Incident analysis completed by agent.'')"
  have l: "loop w max_steps s = ([], Returned (s\<lparr>done := True, conclusion := ?c\<rparr>))"
    using assms(1,2) body_finish [OF assms(3,4)] by (simp add: loop_step)
  have a: "run w s max_steps =
      ([], Returned (s\<lparr>done := True, conclusion := JStr ''Incident analysis completed by agent.''\<rparr>))"
    if "map_of d ''conclusion'' = None"
    using l that by (simp add: run_def dict_get_def)
  have b: "run w s max_steps = ([], Returned (s\<lparr>done := True, conclusion := c\<rparr>))"
    if "map_of d ''conclusion'' = Some c" and "truthy c" for c
    using l that by (simp add: run_def dict_get_def)
  have c: "run w s max_steps =
      ([], case summarize s of
             Inl e \<Rightarrow> Raised e (s\<lparr>done := True, conclusion := c\<rparr>)
           | Inr t \<Rightarrow> Returned (s\<lparr>done := True, conclusion := JStr t\<rparr>))"
    if "map_of d ''conclusion'' = Some c" and "\<not> truthy c" for c
    using l that by (simp add: run_def dict_get_def split: sum.splits)
  show ?thesis using l a b c by blast
qed

text \<open>A finish decision with a conclusion text ends the run of a new state at once.\<close>

theorem finish_decision_stops_witness:
  "\<not> done ex_state \<and> steps ex_state < 6
   \<and> decision_of finish_world ex_state = Inr (finish_json ''payments-api is degraded'')
   \<and> truthy (dict_get [(''conclusion'', JStr ''payments-api is degraded''), (''done'', JBool True)]
        ''done'' JNull)
   \<and> run finish_world ex_state 6 =
        ([], Returned (ex_state\<lparr>done := True, conclusion := JStr ''payments-api is degraded''\<rparr>))"
proof -
  let ?d = "[(''conclusion'', JStr ''payments-api is degraded''), (''done'', JBool True)]"
  have h1: "\<not> done ex_state" by code_simp
  have h2: "steps ex_state < 6" by code_simp
  have h3: "decision_of finish_world ex_state = Inr (JObj ?d)" by code_simp
  have h4: "truthy (dict_get ?d ''done'' JNull)" by code_simp
  have "run finish_world ex_state 6 =
        ([], Returned (ex_state\<lparr>done := True, conclusion := JStr ''payments-api is degraded''\<rparr>))"
    using finish_decision_stops [OF h1 h2 h3 h4] by simp
  then show ?thesis using h1 h2 h3 h4 by (simp add: finish_json_def)
qed

text \<open>
  C3 as it is stated fails for a finish decision whose conclusion is the empty string: the
  loop leaves with the empty conclusion, and the run returns the summary, which is neither
  the supplied text nor the placeholder.
\<close>

theorem finish_empty_conclusion_counterexample:
  "decision_of finish_empty_world ex_state =
     Inr (JObj [(''conclusion'', JStr []), (''done'', JBool True)])
   \<and> loop finish_empty_world 6 ex_state =
       ([], Returned (ex_state\<lparr>done := True, conclusion := JStr []\<rparr>))
   \<and> run finish_empty_world ex_state 6 =
       ([], Returned (ex_state\<lparr>done := True, conclusion := JStr ''Likely root cause: ''\<rparr>))
   \<and> JStr ''Likely root cause: '' \<noteq> JStr ''Incident analysis completed by agent.''"
  by code_simp

section \<open>The conclusion of a run that returns\<close>

lemma loop_conclusion:
  "loop w m s = (evs, Returned t) \<Longrightarrow>
     conclusion t = conclusion s
     \<or> (\<exists>c. conclusion t = JStr (''Likely root cause: '' @ c))
     \<or> (\<exists>u d. u \<in> set (s # snapshots evs) \<and> decision_of w u = Inr (JObj d) \<and>
           truthy (dict_get d ''done'' JNull) \<and>
           conclusion t = dict_get d ''conclusion'' (JStr ''Incident analysis completed by agent.''))"
proof (induction w m s arbitrary: evs rule: loop.induct)
  case (1 w m s)
  show ?case
  proof (cases "\<not> done s \<and> steps s < m")
    case False
    then have "loop w m s = ([], Returned s)" by (intro loop_stop) auto
    then show ?thesis using "1.prems" by simp
  next
    case True
    obtain bevs r where b: "body w s = (bevs, r)" by (cases "body w s")
    have step: "loop w m s =
        (case r of Raises e s' \<Rightarrow> (bevs, Raised e s') | Breaks s' \<Rightarrow> (bevs, Returned s')
         | Continues s' \<Rightarrow> (case loop w m s' of (evs', r) \<Rightarrow> (bevs @ evs', r)))"
      using True b by (simp add: loop_step)
    show ?thesis
    proof (cases r)
      case (Raises e u)
      then show ?thesis using "1.prems" step by simp
    next
      case (Breaks u)
      then have eq: "evs = bevs" "t = u" using "1.prems" step by simp_all
      from body_Breaks [OF b [unfolded Breaks]] show ?thesis
      proof (elim disjE exE conjE)
        fix d assume "decision_of w s = Inr (JObj d)" "truthy (dict_get d ''done'' JNull)"
          "u = s\<lparr>done := True, conclusion := dict_get d ''conclusion''
                 (JStr ''Incident analysis completed by agent.'')\<rparr>"
        then show ?thesis using eq by auto
      next
        fix d assume "u = s"
        then show ?thesis using eq by simp
      next
        fix n sv obs c s1
        assume "summarize s1 = Inr c" "u = s1\<lparr>done := True, conclusion := JStr c\<rparr>"
        then show ?thesis using eq summarize_prefix by fastforce
      qed
    next
      case (Continues u)
      obtain evs' where rec: "loop w m u = (evs', Returned t)" and evs: "evs = bevs @ evs'"
        using "1.prems" step Continues by (auto split: prod.splits)
      from body_Continues [OF b [unfolded Continues]] obtain n sv obs where
        bevs: "bevs = [Invoked n sv, Completed u]" and
        u: "u = s\<lparr>observations := observations s @ [obs], steps := steps s + 1\<rparr>"
        by blast
      have cu: "conclusion u = conclusion s" using u by simp
      have sub: "set (u # snapshots evs') \<subseteq> set (s # snapshots evs)"
        by (auto simp: evs bevs snapshots_append)
      from "1.IH" [OF True b [symmetric] Continues rec] show ?thesis
        using cu sub by (elim disjE) (simp, blast, blast)
    qed
  qed
qed

text \<open>
  C4, as the code has it. The conclusion of every run that returns is not empty. It is a
  string that is not empty, or the conclusion the initial state already had, or the value
  that a finish decision of the model supplied under \<open>conclusion\<close>, which the code stores
  as it is, string or not. So it is a string that is not empty whenever the initial state
  has no conclusion or a string, and every conclusion the model supplies is a string.
\<close>

theorem returned_conclusion:
  assumes "run w s max_steps = (evs, Returned s')"
  shows "truthy (conclusion s')
       \<and> ((\<exists>c. conclusion s' = JStr c \<and> c \<noteq> [])
          \<or> conclusion s' = conclusion s
          \<or> (\<exists>u d. u \<in> set (s # snapshots evs) \<and> decision_of w u = Inr (JObj d) \<and>
                truthy (dict_get d ''done'' JNull) \<and>
                map_of d ''conclusion'' = Some (conclusion s')))
       \<and> ((conclusion s = JNull \<or> (\<exists>c. conclusion s = JStr c)) \<and>
          (\<forall>u d v. u \<in> set (s # snapshots evs) \<and> decision_of w u = Inr (JObj d) \<and>
                   map_of d ''conclusion'' = Some v \<longrightarrow> (\<exists>c. v = JStr c))
          \<longrightarrow> (\<exists>c. conclusion s' = JStr c \<and> c \<noteq> []))"
proof -
  obtain out where l: "loop w max_steps s = (evs, out)"
    using run_keeps_loop [OF assms] by blast
  have main: "truthy (conclusion s')
       \<and> ((\<exists>c. conclusion s' = JStr c \<and> c \<noteq> [])
          \<or> conclusion s' = conclusion s
          \<or> (\<exists>u d. u \<in> set (s # snapshots evs) \<and> decision_of w u = Inr (JObj d) \<and>
                truthy (dict_get d ''done'' JNull) \<and>
                map_of d ''conclusion'' = Some (conclusion s')))"
  proof (cases out)
    case (Raised e t)
    then show ?thesis using assms l by (simp add: run_def)
  next
    case (Returned t)
    note lc = loop_conclusion [OF l [unfolded Returned]]
    show ?thesis
    proof (cases "truthy (conclusion t)")
      case False
      then obtain c where "summarize t = Inr c" "s' = t\<lparr>conclusion := JStr c\<rparr>"
        using assms l Returned by (auto simp: run_def split: sum.splits)
      then show ?thesis using summarize_prefix by fastforce
    next
      case True
      then have eq: "s' = t" using assms l Returned by (simp add: run_def)
      from lc show ?thesis
      proof (elim disjE exE conjE)
        assume "conclusion t = conclusion s"
        then show ?thesis using True eq by simp
      next
        fix c assume "conclusion t = JStr (''Likely root cause: '' @ c)"
        then show ?thesis using eq by simp
      next
        fix u d
        assume u: "u \<in> set (s # snapshots evs)" "decision_of w u = Inr (JObj d)"
          "truthy (dict_get d ''done'' JNull)"
          "conclusion t = dict_get d ''conclusion'' (JStr ''Incident analysis completed by agent.'')"
        show ?thesis
        proof (cases "map_of d ''conclusion''")
          case None
          then show ?thesis using u(4) eq by (simp add: dict_get_def)
        next
          case (Some v)
          then have "map_of d ''conclusion'' = Some (conclusion s')"
            using u(4) eq by (simp add: dict_get_def)
          then show ?thesis using u(1,2,3) True eq by blast
        qed
      qed
    qed
  qed
  have str: "\<exists>c. conclusion s' = JStr c \<and> c \<noteq> []"
    if init: "conclusion s = JNull \<or> (\<exists>c. conclusion s = JStr c)"
      and sup: "\<forall>u d v. u \<in> set (s # snapshots evs) \<and> decision_of w u = Inr (JObj d) \<and>
                   map_of d ''conclusion'' = Some v \<longrightarrow> (\<exists>c. v = JStr c)"
  proof -
    have t: "truthy (conclusion s')" using main by blast
    from main have "(\<exists>c. conclusion s' = JStr c \<and> c \<noteq> [])
          \<or> conclusion s' = conclusion s
          \<or> (\<exists>u d. u \<in> set (s # snapshots evs) \<and> decision_of w u = Inr (JObj d) \<and>
                truthy (dict_get d ''done'' JNull) \<and>
                map_of d ''conclusion'' = Some (conclusion s'))"
      by blast
    then have "\<exists>c. conclusion s' = JStr c"
      using init sup t by (elim disjE) (blast, auto)
    then show ?thesis using t by auto
  qed
  show ?thesis using main str by blast
qed

text \<open>Metrics, logs and deployments: the evidence policy stops the run after the third step,
  with the summary of the three observations.\<close>

theorem returned_conclusion_witness:
  "run evidence_world ex_state 6 =
     (fst (run evidence_world ex_state 6), Returned (state_of (snd (run evidence_world ex_state 6))))
   \<and> length (invocations (fst (run evidence_world ex_state 6))) = 3
   \<and> done (state_of (snd (run evidence_world ex_state 6)))
   \<and> conclusion (state_of (snd (run evidence_world ex_state 6))) =
       JStr ''Likely root cause: High CPU usage detected. High service latency observed. Application errors found in logs. Recent deployment detected.''
   \<and> truthy (conclusion (state_of (snd (run evidence_world ex_state 6))))"
proof -
  have r: "run evidence_world ex_state 6 =
     (fst (run evidence_world ex_state 6), Returned (state_of (snd (run evidence_world ex_state 6))))"
    by code_simp
  have n: "length (invocations (fst (run evidence_world ex_state 6))) = 3" by code_simp
  have d: "done (state_of (snd (run evidence_world ex_state 6)))" by code_simp
  have c: "conclusion (state_of (snd (run evidence_world ex_state 6))) =
       JStr ''Likely root cause: High CPU usage detected. High service latency observed. Application errors found in logs. Recent deployment detected.''"
    by code_simp
  show ?thesis using returned_conclusion [OF r] r n d c by blast
qed

text \<open>
  C4 as it is stated fails for a finish decision whose conclusion is a list with one text:
  the run returns, and its conclusion is that list, not a string.
\<close>

theorem conclusion_not_string_counterexample:
  "decision_of finish_list_world ex_state =
     Inr (JObj [(''conclusion'', JList [JStr ''payments-api is degraded'']),
                (''done'', JBool True)])
   \<and> run finish_list_world ex_state 6 =
       ([], Returned (ex_state\<lparr>done := True,
              conclusion := JList [JStr ''payments-api is degraded'']\<rparr>))
   \<and> (\<forall>c. conclusion (state_of (snd (run finish_list_world ex_state 6))) \<noteq> JStr c)"
proof -
  have d: "decision_of finish_list_world ex_state =
     Inr (JObj [(''conclusion'', JList [JStr ''payments-api is degraded'']),
                (''done'', JBool True)])"
    by code_simp
  have r: "run finish_list_world ex_state 6 =
       ([], Returned (ex_state\<lparr>done := True,
              conclusion := JList [JStr ''payments-api is degraded'']\<rparr>))"
    by code_simp
  show ?thesis using d r by simp
qed

section \<open>Exhausting the budget\<close>





section \<open>Tools outside the registry\<close>

text \<open>
  C6. When the decision in a state in which the loop runs is a continue decision whose
  \<open>action\<close> is a dictionary naming a tool that is not a key of \<open>TOOLS\<close>, the run raises in
  that step, before any tool function is entered and with the state unchanged: the
  \<^verbatim>\<open>ValueError\<close> that names the tool, or the \<^verbatim>\<open>TypeError\<close> of the registry lookup when
  the name is a list or a dictionary.
\<close>

theorem unknown_tool_raises:
  assumes "\<not> done s" and "steps s < max_steps"
    and "decision_of w s = Inr (JObj d)" and "\<not> truthy (dict_get d ''done'' JNull)"
    and "dict_get d ''action'' JNull = JObj a" and "a \<noteq> []"
    and "\<forall>name \<in> set (map fst TOOLS). dict_get a ''tool'' JNull \<noteq> JStr name"
  shows "run w s max_steps =
           ([], Raised (if unhashable (dict_get a ''tool'' JNull) then TypeError
                        else ValueError_UnknownTool (dict_get a ''tool'' JNull)) s)"
  using assms(1,2) body_unknown_tool [OF assms(3-7)]
  by (simp add: run_def loop_step)

text \<open>The model asks for \<open>restart_service\<close>, which is not registered.\<close>

theorem unknown_tool_raises_witness:
  "\<not> done ex_state \<and> steps ex_state < 6
   \<and> decision_of unknown_tool_world ex_state = Inr (call_json ''restart_service'' ''checkout-service'')
   \<and> ''restart_service'' \<notin> set (map fst TOOLS)
   \<and> run unknown_tool_world ex_state 6 =
        ([], Raised (ValueError_UnknownTool (JStr ''restart_service'')) ex_state)"
proof -
  let ?a = "[(''tool'', JStr ''restart_service''),
             (''args'', JObj [(''service'', JStr ''checkout-service'')])]"
  let ?d = "[(''action'', JObj ?a), (''done'', JBool False)]"
  have h1: "\<not> done ex_state" by code_simp
  have h2: "steps ex_state < 6" by code_simp
  have h3: "decision_of unknown_tool_world ex_state = Inr (JObj ?d)" by code_simp
  have h4: "\<not> truthy (dict_get ?d ''done'' JNull)" by code_simp
  have h5: "dict_get ?d ''action'' JNull = JObj ?a" by code_simp
  have h6: "?a \<noteq> []" by simp
  have n: "''restart_service'' \<notin> set (map fst TOOLS)" by (simp add: TOOLS_def)
  have h7: "\<forall>name \<in> set (map fst TOOLS). dict_get ?a ''tool'' JNull \<noteq> JStr name"
    using n by (auto simp: dict_get_def)
  have r: "run unknown_tool_world ex_state 6 =
        ([], Raised (ValueError_UnknownTool (JStr ''restart_service'')) ex_state)"
    using unknown_tool_raises [OF h1 h2 h3 h4 h5 h6 h7] by (simp add: dict_get_def)
  show ?thesis using h1 h2 h3 n r by (simp add: call_json_def)
qed

section \<open>Responses that are not decisions\<close>




section \<open>Services without data\<close>

text \<open>
  C8, as the code has it. When the data file of a tool decodes to a dictionary with no
  record for the service name, \<open>check_metrics\<close>, \<open>check_deployments\<close> and
  \<open>check_dependencies\<close> do not raise and return \<open>ok\<close> false with an error description;
  \<open>check_logs\<close> does not raise either, but takes the missing record for an empty list of
  logs and returns \<open>ok\<close> true with an error count of zero and no error description.
\<close>

theorem not_found_results:
  assumes "file = Inr (JObj kvs)" and "map_of kvs name = None"
  shows "check_metrics file (JStr name) =
           Inr [(''ok'', JBool False), (''error'', JStr ''Service not found'')]
       \<and> check_deployments file (JStr name) =
           Inr [(''ok'', JBool False), (''error'', JStr ''No deployment info'')]
       \<and> check_dependencies file (JStr name) =
           Inr [(''ok'', JBool False), (''error'', JStr ''No dependency data'')]
       \<and> check_logs file (JStr name) =
           Inr [(''ok'', JBool True), (''service'', JStr name),
                (''error_count'', JInt 0), (''recent_errors'', JList [])]"
  using assms
  by (simp add: check_metrics_def check_deployments_def check_dependencies_def check_logs_def)

text \<open>None of the example data files has a record for \<open>ghost-service\<close>.\<close>

theorem not_found_results_witness:
  "check_metrics (Inr metrics_ex) (JStr ''ghost-service'') =
        Inr [(''ok'', JBool False), (''error'', JStr ''Service not found'')]
   \<and> check_deployments (Inr deployments_ex) (JStr ''ghost-service'') =
        Inr [(''ok'', JBool False), (''error'', JStr ''No deployment info'')]
   \<and> check_dependencies (Inr dependencies_ex) (JStr ''ghost-service'') =
        Inr [(''ok'', JBool False), (''error'', JStr ''No dependency data'')]
   \<and> check_logs (Inr logs_ex) (JStr ''ghost-service'') =
        Inr [(''ok'', JBool True), (''service'', JStr ''ghost-service''),
             (''error_count'', JInt 0), (''recent_errors'', JList [])]"
proof -
  have m: "check_metrics (Inr metrics_ex) (JStr ''ghost-service'') =
        Inr [(''ok'', JBool False), (''error'', JStr ''Service not found'')]"
    using not_found_results [of "Inr metrics_ex" _ "''ghost-service''"]
    by (simp add: metrics_ex_def)
  have d: "check_deployments (Inr deployments_ex) (JStr ''ghost-service'') =
        Inr [(''ok'', JBool False), (''error'', JStr ''No deployment info'')]"
    using not_found_results [of "Inr deployments_ex" _ "''ghost-service''"]
    by (simp add: deployments_ex_def)
  have p: "check_dependencies (Inr dependencies_ex) (JStr ''ghost-service'') =
        Inr [(''ok'', JBool False), (''error'', JStr ''No dependency data'')]"
    using not_found_results [of "Inr dependencies_ex" _ "''ghost-service''"]
    by (simp add: dependencies_ex_def)
  have l: "check_logs (Inr logs_ex) (JStr ''ghost-service'') =
        Inr [(''ok'', JBool True), (''service'', JStr ''ghost-service''),
             (''error_count'', JInt 0), (''recent_errors'', JList [])]"
    using not_found_results [of "Inr logs_ex" _ "''ghost-service''"]
    by (simp add: logs_ex_def)
  show ?thesis using m d p l by blast
qed

text \<open>
  C8 as it is stated fails for \<open>check_logs\<close>: for a service without logs its result has
  \<open>ok\<close> true and no \<open>error\<close>.
\<close>

theorem check_logs_unknown_service_counterexample:
  "data_get logs_ex (JStr ''ghost-service'') = Inr None
   \<and> check_logs (Inr logs_ex) (JStr ''ghost-service'') =
        Inr [(''ok'', JBool True), (''service'', JStr ''ghost-service''),
             (''error_count'', JInt 0), (''recent_errors'', JList [])]
   \<and> (case check_logs (Inr logs_ex) (JStr ''ghost-service'') of
         Inl e \<Rightarrow> False
       | Inr r \<Rightarrow> map_of r ''ok'' = Some (JBool True) \<and> map_of r ''error'' = None)"
  by code_simp

section \<open>The summary\<close>

text \<open>
  C9 at its input. The history is the one observation that \<open>check_dependencies\<close> gives for
  the example data, with \<open>payments-api\<close> degraded. The summary ends with the name of the
  dependency: the clause for a degraded dependency is the only one built without a
  closing period, so the summary is not the string of the claim.
\<close>

theorem summarize_degraded_dependency:
  "check_dependencies (Inr dependencies_ex) (JStr ''checkout-service'') =
     Inr (result (hd degraded_history))
   \<and> summarize (ex_state\<lparr>observations := degraded_history\<rparr>) =
     Inr ''Likely root cause: Degraded dependency: payments-api''
   \<and> summarize (ex_state\<lparr>observations := degraded_history\<rparr>) \<noteq>
     Inr ''Likely root cause: Degraded dependency: payments-api.''"
  by code_simp







end
